theory Spec2Isabelle
  imports Main "HOL-Library.Sublist" "HOL-Library.AList"
begin

section \<open>JavaScript strings and arrays, as far as InvenTrack.jsx uses them\<close>

text \<open>
  A JavaScript string is a sequence of UTF-16 code units. The model covers the texts whose
  code units lie in the range 0..255 (ASCII and Latin-1): one \<^typ>\<open>char\<close> is one code
  unit. On that range \<open>String.prototype.trim\<close> removes the code units 9..13, 32 and 160,
  and \<open>toLowerCase\<close> moves \<open>A..Z\<close>, \<open>0xC0..0xD6\<close> and \<open>0xD8..0xDE\<close> up by 32.
\<close>

definition isWhiteSpace :: "char \<Rightarrow> bool" where
  "isWhiteSpace c =
     (c \<in> set [CHR 0x09, CHR 0x0A, CHR 0x0B, CHR 0x0C, CHR 0x0D, CHR 0x20, CHR 0xA0])"

definition trim :: "string \<Rightarrow> string" where
  "trim s = rev (dropWhile isWhiteSpace (rev (dropWhile isWhiteSpace s)))"

definition lowerUnit :: "char \<Rightarrow> char" where
  "lowerUnit c =
     (let n = (of_char c :: nat)
      in if (65 \<le> n \<and> n \<le> 90) \<or> (192 \<le> n \<and> n \<le> 214) \<or> (216 \<le> n \<and> n \<le> 222)
         then char_of (n + 32) else c)"

definition toLowerCase :: "string \<Rightarrow> string" where
  "toLowerCase s = map lowerUnit s"

text \<open>
  \<open>s.split(sep)\<close> with a separator of one code unit. The result is never empty:
  \<open>"".split(",")\<close> is \<open>[""]\<close>.
\<close>

fun js_split :: "char \<Rightarrow> string \<Rightarrow> string list" where
  "js_split sep [] = [[]]"
| "js_split sep (c # cs) =
     (if c = sep then [] # js_split sep cs
      else (case js_split sep cs of
              [] \<Rightarrow> [[c]]
            | w # ws \<Rightarrow> (c # w) # ws))"

text \<open>\<open>xs.indexOf(x)\<close>: the first position of \<open>x\<close>, or \<open>-1\<close>.\<close>

fun indexOf :: "'a list \<Rightarrow> 'a \<Rightarrow> int" where
  "indexOf [] x = - 1"
| "indexOf (y # ys) x =
     (if y = x then 0
      else (let r = indexOf ys x in if r = - 1 then - 1 else r + 1))"

text \<open>\<open>xs[i]\<close>: \<open>None\<close> stands for \<open>undefined\<close>, which an index out of range gives.\<close>

definition at_index :: "'a list \<Rightarrow> int \<Rightarrow> 'a option" where
  "at_index xs i = (if 0 \<le> i \<and> i < int (length xs) then Some (xs ! nat i) else None)"

text \<open>\<open>s.includes(q)\<close>: \<open>q\<close> occurs in \<open>s\<close> as a run of consecutive code units.\<close>

fun js_includes :: "string \<Rightarrow> string \<Rightarrow> bool" where
  "js_includes [] q = (q = [])"
| "js_includes (c # cs) q = (prefix q (c # cs) \<or> js_includes cs q)"

section \<open>Data model\<close>

text \<open>
  The record that \<open>parseCSV\<close> pushes and that a document of the inventory collection
  holds; an item of the in-memory list is that record with the document identifier
  (\<open>{ id: doc.id, ...data }\<close>). Documents are the ones this application writes: each has
  the three fields, with a string, a string and a boolean.
\<close>

record doc_data =
  name :: string
  category :: string
  taken :: bool

record item = doc_data +
  item_id :: string

datatype js_error = Error (message: string)

section \<open>The CSV parser\<close>

text \<open>
  The body of the \<open>for\<close> loop of \<open>parseCSV\<close>, over the lines after the header, with
  the array \<open>items\<close> as accumulator. A field that is \<open>undefined\<close> or the empty string
  is falsy; any other string is truthy and is trimmed.
\<close>

fun parse_loop :: "int \<Rightarrow> int \<Rightarrow> string list \<Rightarrow> doc_data list \<Rightarrow> doc_data list" where
  "parse_loop nameIndex categoryIndex [] items = items"
| "parse_loop nameIndex categoryIndex (line # rest) items =
     (if line = [] then parse_loop nameIndex categoryIndex rest items
      else
        (let values = js_split CHR '','' line;
             name = (case at_index values nameIndex of
                       None \<Rightarrow> []
                     | Some v \<Rightarrow> if v \<noteq> [] then trim v else []);
             category = (case at_index values categoryIndex of
                           None \<Rightarrow> ''Uncategorized''
                         | Some v \<Rightarrow> if v \<noteq> [] then trim v else ''Uncategorized'')
         in if name \<noteq> []
            then parse_loop nameIndex categoryIndex rest
                   (items @ [\<lparr>name = name, category = category, taken = False\<rparr>])
            else parse_loop nameIndex categoryIndex rest items))"

definition columns_error :: js_error where
  "columns_error =
     Error (''CSV must contain '' @ [CHR 0x22] @ ''name'' @ [CHR 0x22] @ '' and ''
            @ [CHR 0x22] @ ''category'' @ [CHR 0x22] @ '' columns.'')"

definition parseCSV :: "string \<Rightarrow> js_error + doc_data list" where
  "parseCSV csvText =
     (case js_split CHR ''\<newline>'' (trim csvText) of
        [] \<Rightarrow> Inl (Error ''lines[0] is undefined'')
      | header # rest \<Rightarrow>
          (let headers = map (\<lambda>h. toLowerCase (trim h)) (js_split CHR '','' header);
               nameIndex = indexOf headers ''name'';
               categoryIndex = indexOf headers ''category''
           in if nameIndex = - 1 \<or> categoryIndex = - 1 then Inl columns_error
              else Inr (parse_loop nameIndex categoryIndex rest [])))"

section \<open>Component state\<close>

text \<open>
  The \<open>useState\<close> slots of \<open>App\<close>. \<open>None\<close> is \<open>null\<close> in \<open>userId\<close>, \<open>error\<close> and
  \<open>uploadSuccess\<close>.
\<close>

record app_state =
  items :: "item list"
  categories :: "string list"
  selectedCategory :: string
  searchQuery :: string
  isAuthReady :: bool
  userId :: "string option"
  isLoading :: bool
  error :: "string option"
  uploading :: bool
  uploadSuccess :: "string option"

definition initial_state :: app_state where
  "initial_state =
     \<lparr>items = [], categories = [], selectedCategory = ''All'', searchQuery = [],
      isAuthReady = False, userId = None, isLoading = True, error = None,
      uploading = False, uploadSuccess = None\<rparr>"

section \<open>The document store\<close>

text \<open>
  The inventory collection is held by Firestore, outside the repository. It is modelled as
  an association list from document identifiers to document data. A write batch is the
  list of its operations in the order the code adds them; \<open>commit\<close> applies all of them
  or, when it is rejected, none. \<open>updateDoc\<close> changes the named field of an existing
  document and is rejected when the document does not exist.
\<close>

type_synonym collection = "(string \<times> doc_data) list"

datatype write_op = BatchDelete string | BatchSet string doc_data

datatype backend_call = GetDocs | BatchCommit "write_op list" | UpdateDoc string bool

fun apply_write :: "write_op \<Rightarrow> collection \<Rightarrow> collection" where
  "apply_write (BatchDelete i) c = AList.delete i c"
| "apply_write (BatchSet i d) c = AList.update i d c"

definition apply_batch :: "write_op list \<Rightarrow> collection \<Rightarrow> collection" where
  "apply_batch batch c = fold apply_write batch c"

definition updateDoc :: "js_error option \<Rightarrow> string \<Rightarrow> bool \<Rightarrow> collection \<Rightarrow> js_error + collection" where
  "updateDoc fault i v c =
     (case fault of
        Some e \<Rightarrow> Inl e
      | None \<Rightarrow>
          if i \<in> fst ` set c
          then Inr (map (\<lambda>(k, d). if k = i then (k, d\<lparr>taken := v\<rparr>) else (k, d)) c)
          else Inl (Error ''No document to update''))"

section \<open>Session manager\<close>

text \<open>
  The callback given to \<open>onAuthStateChanged\<close>: either a user with its \<open>uid\<close>, or no
  user, and then the outcome of the sign-in that the callback awaits.
\<close>

datatype auth_event = User string | NoUser "js_error option"

definition onAuthStateChanged :: "auth_event \<Rightarrow> app_state \<Rightarrow> app_state" where
  "onAuthStateChanged ev st =
     (case ev of
        User uid \<Rightarrow> st\<lparr>userId := Some uid, isAuthReady := True\<rparr>
      | NoUser None \<Rightarrow> st\<lparr>isAuthReady := True\<rparr>
      | NoUser (Some authError) \<Rightarrow>
          st\<lparr>error := Some ''Failed to authenticate. Please refresh.'', isAuthReady := True\<rparr>)"

section \<open>Inventory subscription\<close>

text \<open>\<open>Set.prototype.add\<close> on a set kept in insertion order.\<close>

definition set_add :: "'a list \<Rightarrow> 'a \<Rightarrow> 'a list" where
  "set_add s x = (if x \<in> set s then s else s @ [x])"

text \<open>The \<open>querySnapshot.forEach\<close> of the snapshot callback, with its two accumulators.\<close>

fun snapshot_forEach :: "collection \<Rightarrow> item list \<Rightarrow> string list \<Rightarrow> item list \<times> string list" where
  "snapshot_forEach [] dbItems dbCategories = (dbItems, dbCategories)"
| "snapshot_forEach ((i, data) # rest) dbItems dbCategories =
     snapshot_forEach rest
       (dbItems @ [\<lparr>name = name data, category = category data, taken = taken data,
                    item_id = i\<rparr>])
       (if category data \<noteq> [] then set_add dbCategories (category data) else dbCategories)"

definition onSnapshot_next :: "collection \<Rightarrow> app_state \<Rightarrow> app_state" where
  "onSnapshot_next querySnapshot st =
     (case snapshot_forEach querySnapshot [] [''All''] of
        (dbItems, dbCategories) \<Rightarrow>
          st\<lparr>items := dbItems, categories := dbCategories, isLoading := False, error := None\<rparr>)"

definition onSnapshot_error :: "js_error \<Rightarrow> app_state \<Rightarrow> app_state" where
  "onSnapshot_error err st =
     st\<lparr>error := Some ''Failed to load items. Check console for details.'',
        isLoading := False\<rparr>"

section \<open>Upload workflow\<close>

text \<open>Decimal digits of a number, as a template literal prints it.\<close>

fun digits :: "nat \<Rightarrow> string" where
  "digits n =
     (if n < 10 then [char_of (48 + n)] else digits (n div 10) @ [char_of (48 + n mod 10)])"

declare digits.simps [simp del]

text \<open>
  What the change event carries: no file, a file whose read fails (\<open>reader.onerror\<close>), or a
  file whose text is delivered to \<open>reader.onload\<close>. One run of \<open>handleFileUpload\<close>, from
  the change event to the last state update of its callbacks, is one transition here; the
  five-second timer that clears the success message is a transition of its own.
\<close>

datatype file_read = NoFile | ReadError | ReadText string

text \<open>
  The answers of the store during one upload: the result of \<open>await getDocs\<close> (the
  identifiers of the documents of the snapshot, or a rejection), the identifier that the
  \<open>k\<close>-th call of \<open>doc(collection(...))\<close> generates, and the result of
  \<open>await batch.commit()\<close> (\<open>None\<close>: committed).
\<close>

record upload_env =
  getDocsResult :: "js_error + string list"
  autoId :: "nat \<Rightarrow> string"
  commitResult :: "js_error option"

text \<open>
  The \<open>try\<close> block of \<open>reader.onload\<close>: a thrown or rejected error is \<open>Inl\<close>, the
  number of uploaded items is \<open>Inr\<close>; with it the collection afterwards and the calls
  made to the store.
\<close>

definition upload_try ::
  "upload_env \<Rightarrow> string \<Rightarrow> collection \<Rightarrow> (js_error + nat) \<times> collection \<times> backend_call list" where
  "upload_try env text c =
     (case parseCSV text of
        Inl e \<Rightarrow> (Inl e, c, [])
      | Inr parsedItems \<Rightarrow>
          if length parsedItems = 0
          then (Inl (Error ''No valid items found in the CSV.''), c, [])
          else
            (case getDocsResult env of
               Inl e \<Rightarrow> (Inl e, c, [GetDocs])
             | Inr docIds \<Rightarrow>
                 (let batch = map BatchDelete docIds
                        @ map (\<lambda>(k, item). BatchSet (autoId env k) item) (enumerate 0 parsedItems)
                  in case commitResult env of
                       Some e \<Rightarrow> (Inl e, c, [GetDocs, BatchCommit batch])
                     | None \<Rightarrow>
                         (Inr (length parsedItems), apply_batch batch c,
                          [GetDocs, BatchCommit batch]))))"

definition handleFileUpload ::
  "file_read \<Rightarrow> upload_env \<Rightarrow> app_state \<times> collection
     \<Rightarrow> app_state \<times> collection \<times> backend_call list" where
  "handleFileUpload file env sc =
     (case sc of (st, c) \<Rightarrow>
        (case file of
           NoFile \<Rightarrow> (st, c, [])
         | ReadError \<Rightarrow>
             (let st1 = st\<lparr>uploading := True, error := None, uploadSuccess := None\<rparr>
              in (st1\<lparr>error := Some ''Failed to read the file.'', uploading := False\<rparr>, c, []))
         | ReadText text \<Rightarrow>
             (let st1 = st\<lparr>uploading := True, error := None, uploadSuccess := None\<rparr>
              in case upload_try env text c of
                   (Inl err, c', calls) \<Rightarrow>
                     (st1\<lparr>error := Some (''Upload Failed: '' @ message err),
                          uploading := False\<rparr>, c', calls)
                 | (Inr n, c', calls) \<Rightarrow>
                     (st1\<lparr>uploadSuccess :=
                            Some (''Successfully uploaded '' @ digits n @ '' items!''),
                          uploading := False\<rparr>, c', calls))))"

text \<open>The timer set after a successful upload.\<close>

definition uploadSuccess_timeout :: "app_state \<Rightarrow> app_state" where
  "uploadSuccess_timeout st = st\<lparr>uploadSuccess := None\<rparr>"

section \<open>Item interaction\<close>

text \<open>\<open>!userId\<close> holds for \<open>null\<close> and for the empty string.\<close>

definition handleTakeItem ::
  "js_error option \<Rightarrow> string \<Rightarrow> bool \<Rightarrow> app_state \<times> collection
     \<Rightarrow> app_state \<times> collection \<times> backend_call list" where
  "handleTakeItem fault itemId currentStatus sc =
     (case sc of (st, c) \<Rightarrow>
        if userId st = None \<or> userId st = Some []
        then (st\<lparr>error := Some ''You must be signed in to take an item.''\<rparr>, c, [])
        else
          (case updateDoc fault itemId (\<not> currentStatus) c of
             Inl err \<Rightarrow>
               (st\<lparr>error := Some ''Failed to update item.''\<rparr>, c,
                [UpdateDoc itemId (\<not> currentStatus)])
           | Inr c' \<Rightarrow> (st, c', [UpdateDoc itemId (\<not> currentStatus)])))"

section \<open>Derived view state\<close>

definition categoryFilteredItems :: "app_state \<Rightarrow> item list" where
  "categoryFilteredItems st =
     (if selectedCategory st = ''All'' then items st
      else filter (\<lambda>item. category item = selectedCategory st) (items st))"

definition displayedItems :: "app_state \<Rightarrow> item list" where
  "displayedItems st =
     (if searchQuery st = [] then categoryFilteredItems st
      else
        (let lowerCaseQuery = toLowerCase (searchQuery st)
         in filter (\<lambda>item. js_includes (toLowerCase (name item)) lowerCaseQuery)
              (categoryFilteredItems st)))"

text \<open>
  The object \<open>{ total, taken, notTaken }\<close>; its fields \<open>total\<close> and \<open>taken\<close> are
  \<open>totalCount\<close> and \<open>takenCount\<close> here.
\<close>

record stats =
  totalCount :: nat
  takenCount :: nat
  notTaken :: nat

definition dashboardStats :: "app_state \<Rightarrow> stats" where
  "dashboardStats st =
     (let sourceItems = categoryFilteredItems st;
          total = length sourceItems;
          taken = length (filter (\<lambda>item. taken item) sourceItems);
          notTaken = total - taken
      in \<lparr>totalCount = total, takenCount = taken, notTaken = notTaken\<rparr>)"

section \<open>Notions used to state the properties\<close>

text \<open>The three components of what a handler returns.\<close>

definition state_after :: "app_state \<times> collection \<times> backend_call list \<Rightarrow> app_state" where
  "state_after r = fst r"

definition collection_after :: "app_state \<times> collection \<times> backend_call list \<Rightarrow> collection" where
  "collection_after r = fst (snd r)"

definition calls_of :: "app_state \<times> collection \<times> backend_call list \<Rightarrow> backend_call list" where
  "calls_of r = snd (snd r)"

text \<open>
  The header row of a CSV text is the first line of the trimmed text. It has a column
  \<open>col\<close> when one of its comma-separated cells, trimmed, equals \<open>col\<close> up to letter case.
\<close>

definition header_line :: "string \<Rightarrow> string" where
  "header_line text =
     (case js_split CHR ''\<newline>'' (trim text) of [] \<Rightarrow> [] | h # rest \<Rightarrow> h)"

definition has_column :: "string \<Rightarrow> string \<Rightarrow> bool" where
  "has_column text col =
     (\<exists>h \<in> set (js_split CHR '','' (header_line text)).
        toLowerCase (trim h) = toLowerCase col)"

text \<open>
  The two stages of the filter pipeline in the words of the specification: Stage 1 keeps
  the items of the selected category, or all of them under the sentinel; Stage 2 keeps the
  items whose lowercased name has the lowercased search text as a contiguous part.
\<close>

definition stage1_spec :: "string \<Rightarrow> item list \<Rightarrow> item list" where
  "stage1_spec selection xs =
     (if selection = ''All'' then xs else filter (\<lambda>i. category i = selection) xs)"

definition stage2_spec :: "string \<Rightarrow> item list \<Rightarrow> item list" where
  "stage2_spec search xs =
     (if search = [] then xs
      else filter (\<lambda>i. sublist (toLowerCase search) (toLowerCase (name i))) xs)"

text \<open>The item of the in-memory list made from a document.\<close>

definition item_of_doc :: "string \<times> doc_data \<Rightarrow> item" where
  "item_of_doc p =
     \<lparr>name = name (snd p), category = category (snd p), taken = taken (snd p),
      item_id = fst p\<rparr>"

text \<open>Concrete stores and answers, for the examples.\<close>

definition example_csv :: string where
  "example_csv = ''name,category\<newline>A,Cat1\<newline>B,\<newline>,Cat2''"

definition example_parsed :: "doc_data list" where
  "example_parsed =
     [\<lparr>name = ''A'', category = ''Cat1'', taken = False\<rparr>,
      \<lparr>name = ''B'', category = ''Uncategorized'', taken = False\<rparr>]"

definition example_env :: "js_error + string list \<Rightarrow> js_error option \<Rightarrow> upload_env" where
  "example_env fetched committed =
     \<lparr>getDocsResult = fetched, autoId = (\<lambda>k. ''doc'' @ digits k), commitResult = committed\<rparr>"

definition later_env :: "js_error + string list \<Rightarrow> js_error option \<Rightarrow> upload_env" where
  "later_env fetched committed =
     \<lparr>getDocsResult = fetched, autoId = (\<lambda>k. ''new'' @ digits k), commitResult = committed\<rparr>"

definition colliding_env :: "js_error + string list \<Rightarrow> js_error option \<Rightarrow> upload_env" where
  "colliding_env fetched committed =
     \<lparr>getDocsResult = fetched, autoId = (\<lambda>k. ''same''), commitResult = committed\<rparr>"

definition example_collection :: collection where
  "example_collection =
     [(''x1'', \<lparr>name = ''Hammer'', category = ''Tools'', taken = True\<rparr>),
      (''x2'', \<lparr>name = ''Tape'', category = ''Supplies'', taken = False\<rparr>)]"

definition signed_in_state :: app_state where
  "signed_in_state = initial_state\<lparr>isAuthReady := True, userId := Some ''u1''\<rparr>"

section \<open>Facts about strings and arrays\<close>

lemma js_split_not_Nil: "js_split sep s \<noteq> []"
  by (induction s) (auto split: list.splits)

lemma js_split_no_sep: "sep \<notin> set s \<Longrightarrow> js_split sep s = [s]"
  by (induction s) auto

lemma indexOf_ge: "- 1 \<le> indexOf xs x"
  by (induction xs) (auto simp: Let_def)

lemma indexOf_minus1_iff: "indexOf xs x = - 1 \<longleftrightarrow> x \<notin> set xs"
proof (induction xs)
  case Nil
  show ?case by simp
next
  case (Cons y ys)
  have "- 1 \<le> indexOf ys x" by (rule indexOf_ge)
  with Cons show ?case by (auto simp: Let_def)
qed

lemma js_includes_sublist: "js_includes s q \<longleftrightarrow> sublist q s"
  by (induction s) (auto simp: sublist_Cons_right)

section \<open>Facts about the parser\<close>

lemma has_column_headers:
  assumes "js_split CHR ''\<newline>'' (trim text) = h # rest" and "toLowerCase col = col"
  shows "has_column text col
    \<longleftrightarrow> col \<in> set (map (\<lambda>h. toLowerCase (trim h)) (js_split CHR '','' h))"
  unfolding has_column_def header_line_def using assms by force

lemma lower_name: "toLowerCase ''name'' = ''name''"
  by (simp add: toLowerCase_def lowerUnit_def)

lemma lower_category: "toLowerCase ''category'' = ''category''"
  by (simp add: toLowerCase_def lowerUnit_def)

lemma parseCSV_columns_error_iff:
  "parseCSV text = Inl columns_error
     \<longleftrightarrow> \<not> has_column text ''name'' \<or> \<not> has_column text ''category''"
proof -
  obtain h rest where hr: "js_split CHR ''\<newline>'' (trim text) = h # rest"
    using js_split_not_Nil [of "CHR ''\<newline>''" "trim text"]
    by (cases "js_split CHR ''\<newline>'' (trim text)") auto
  show ?thesis
    unfolding has_column_headers [OF hr lower_name] has_column_headers [OF hr lower_category]
    by (simp add: parseCSV_def hr Let_def indexOf_minus1_iff)
qed

lemma parseCSV_header_only:
  assumes "has_column text ''name''" and "has_column text ''category''"
    and "CHR ''\<newline>'' \<notin> set (trim text)"
  shows "parseCSV text = Inr []"
proof -
  have hr: "js_split CHR ''\<newline>'' (trim text) = trim text # []"
    using assms(3) by (rule js_split_no_sep)
  from assms(1,2) show ?thesis
    unfolding has_column_headers [OF hr lower_name] has_column_headers [OF hr lower_category]
    by (simp add: parseCSV_def hr Let_def indexOf_minus1_iff)
qed

lemma parseCSV_example_csv: "parseCSV example_csv = Inr example_parsed"
  by code_simp

lemma parseCSV_header_only_example: "parseCSV ''name,category'' = Inr []"
  by code_simp

lemma parseCSV_no_name_example: "parseCSV ''item,category'' = Inl columns_error"
  by code_simp

lemma example_parsed_not_Nil: "example_parsed \<noteq> []"
  by (simp add: example_parsed_def)

section \<open>Facts about the subscription\<close>

lemma snapshot_forEach_items:
  "fst (snapshot_forEach qs dbItems dbCategories) = dbItems @ map item_of_doc qs"
  by (induction qs dbItems dbCategories rule: snapshot_forEach.induct)
     (simp_all add: item_of_doc_def)

lemma snapshot_forEach_categories:
  "set (snd (snapshot_forEach qs dbItems dbCategories))
     = set dbCategories \<union> {category d |i d. (i, d) \<in> set qs \<and> category d \<noteq> []}"
  by (induction qs dbItems dbCategories rule: snapshot_forEach.induct)
     (auto simp: set_add_def)

lemma onSnapshot_next_fields:
  "items (onSnapshot_next qs st) = map item_of_doc qs"
  "categories (onSnapshot_next qs st) = snd (snapshot_forEach qs [] [''All''])"
  "isLoading (onSnapshot_next qs st) = False"
  "error (onSnapshot_next qs st) = None"
  using snapshot_forEach_items [of qs "[]" "[''All'']"]
  by (auto simp: onSnapshot_next_def split: prod.splits)

section \<open>Facts about the derived view\<close>

lemma categoryFilteredItems_stage1:
  "categoryFilteredItems st = stage1_spec (selectedCategory st) (items st)"
  by (simp add: categoryFilteredItems_def stage1_spec_def)

lemma dashboardStats_fields:
  "totalCount (dashboardStats st) = length (categoryFilteredItems st)"
  "takenCount (dashboardStats st) = length (filter (\<lambda>i. taken i) (categoryFilteredItems st))"
  "notTaken (dashboardStats st) = totalCount (dashboardStats st) - takenCount (dashboardStats st)"
  by (simp_all add: dashboardStats_def Let_def)

section \<open>Facts about the store\<close>

lemma fold_BatchDelete:
  "fold apply_write (map BatchDelete ks) c = filter (\<lambda>p. fst p \<notin> set ks) c"
proof (induction ks arbitrary: c)
  case Nil
  show ?case by simp
next
  case (Cons k ks)
  have "AList.delete k c = filter (\<lambda>p. fst p \<noteq> k) c"
    by (induction c) auto
  with Cons show ?case
    by (simp add: conj_commute)
qed

lemma update_fresh: "k \<notin> fst ` set c \<Longrightarrow> AList.update k v c = c @ [(k, v)]"
  by (induction c) auto

lemma fold_BatchSet:
  "distinct (map fst kvs) \<Longrightarrow> fst ` set c \<inter> fst ` set kvs = {} \<Longrightarrow>
     fold apply_write (map (\<lambda>p. BatchSet (fst p) (snd p)) kvs) c = c @ kvs"
proof (induction kvs arbitrary: c)
  case Nil
  show ?case by simp
next
  case (Cons p kvs)
  from Cons.prems have fresh: "fst p \<notin> fst ` set c" by auto
  have step: "apply_write (BatchSet (fst p) (snd p)) c = c @ [p]"
    using update_fresh [OF fresh] by simp
  from Cons.prems have "distinct (map fst kvs)"
    and "fst ` set (c @ [p]) \<inter> fst ` set kvs = {}" by auto
  then have "fold apply_write (map (\<lambda>p. BatchSet (fst p) (snd p)) kvs) (c @ [p])
      = (c @ [p]) @ kvs" by (rule Cons.IH)
  with step show ?case by simp
qed

lemma batch_sets_zip:
  "map (\<lambda>(k, item). BatchSet (f k) item) (enumerate 0 xs)
     = map (\<lambda>p. BatchSet (fst p) (snd p)) (zip (map f [0..<length xs]) xs)"
  by (simp add: enumerate_eq_zip zip_map1 case_prod_unfold)

lemma replace_batch:
  assumes "distinct (map f [0..<length xs])" and "fst ` set c \<subseteq> set ks"
  shows "apply_batch (map BatchDelete ks
            @ map (\<lambda>(k, item). BatchSet (f k) item) (enumerate 0 xs)) c
         = zip (map f [0..<length xs]) xs"
proof -
  have del: "fold apply_write (map BatchDelete ks) c = []"
    unfolding fold_BatchDelete using assms(2) by (auto simp: filter_empty_conv)
  have "map fst (zip (map f [0..<length xs]) xs) = map f [0..<length xs]"
    by simp
  with assms(1) have "distinct (map fst (zip (map f [0..<length xs]) xs))" by simp
  then have "fold apply_write
       (map (\<lambda>p. BatchSet (fst p) (snd p)) (zip (map f [0..<length xs]) xs)) []
     = [] @ zip (map f [0..<length xs]) xs"
    by (rule fold_BatchSet) simp
  with del show ?thesis
    by (simp add: apply_batch_def batch_sets_zip)
qed

lemma map_of_updateDoc:
  "map_of (map (\<lambda>(k, d). if k = i then (k, d\<lparr>taken := v\<rparr>) else (k, d)) c)
     = (\<lambda>k. if k = i then map_option (\<lambda>d. d\<lparr>taken := v\<rparr>) (map_of c k) else map_of c k)"
  by (induction c) (auto simp: fun_eq_iff)

lemma keys_updateDoc:
  "map fst (map (\<lambda>(k, d). if k = i then (k, d\<lparr>taken := v\<rparr>) else (k, d)) c) = map fst c"
  by (induction c) auto

section \<open>Facts about the upload workflow\<close>

lemma upload_try_parse_error:
  "parseCSV csvText = Inl e \<Longrightarrow> upload_try env csvText c = (Inl e, c, [])"
  by (simp add: upload_try_def)

lemma upload_try_empty:
  "parseCSV csvText = Inr [] \<Longrightarrow>
     upload_try env csvText c = (Inl (Error ''No valid items found in the CSV.''), c, [])"
  by (simp add: upload_try_def)

lemma upload_try_getDocs_error:
  "parseCSV csvText = Inr parsed \<Longrightarrow> parsed \<noteq> [] \<Longrightarrow> getDocsResult env = Inl e \<Longrightarrow>
     upload_try env csvText c = (Inl e, c, [GetDocs])"
  by (simp add: upload_try_def)

lemma upload_try_commit_error:
  "parseCSV csvText = Inr parsed \<Longrightarrow> parsed \<noteq> [] \<Longrightarrow> getDocsResult env = Inr fetched \<Longrightarrow>
   commitResult env = Some e \<Longrightarrow>
     upload_try env csvText c
       = (Inl e, c,
          [GetDocs,
           BatchCommit (map BatchDelete fetched
             @ map (\<lambda>(k, item). BatchSet (autoId env k) item) (enumerate 0 parsed))])"
  by (simp add: upload_try_def)

lemma upload_try_success:
  "parseCSV csvText = Inr parsed \<Longrightarrow> parsed \<noteq> [] \<Longrightarrow> getDocsResult env = Inr fetched \<Longrightarrow>
   commitResult env = None \<Longrightarrow>
     upload_try env csvText c
       = (Inr (length parsed),
          apply_batch (map BatchDelete fetched
             @ map (\<lambda>(k, item). BatchSet (autoId env k) item) (enumerate 0 parsed)) c,
          [GetDocs,
           BatchCommit (map BatchDelete fetched
             @ map (\<lambda>(k, item). BatchSet (autoId env k) item) (enumerate 0 parsed))])"
  by (simp add: upload_try_def Let_def)

lemma handleFileUpload_failed:
  "upload_try env csvText c = (Inl e, c', calls) \<Longrightarrow>
     handleFileUpload (ReadText csvText) env (st, c)
       = (st\<lparr>uploading := False, error := Some (''Upload Failed: '' @ message e),
              uploadSuccess := None\<rparr>, c', calls)"
  by (simp add: handleFileUpload_def)

lemma handleFileUpload_succeeded:
  "upload_try env csvText c = (Inr n, c', calls) \<Longrightarrow>
     handleFileUpload (ReadText csvText) env (st, c)
       = (st\<lparr>uploading := False, error := None,
              uploadSuccess := Some (''Successfully uploaded '' @ digits n @ '' items!'')\<rparr>,
          c', calls)"
  by (simp add: handleFileUpload_def)

section \<open>Facts about the item interaction\<close>

lemma handleTakeItem_signed_out:
  "userId st = None \<Longrightarrow>
     handleTakeItem fault itemId b (st, c)
       = (st\<lparr>error := Some ''You must be signed in to take an item.''\<rparr>, c, [])"
  by (simp add: handleTakeItem_def)

lemma handleTakeItem_calls:
  "userId st = Some u \<Longrightarrow> u \<noteq> [] \<Longrightarrow>
     calls_of (handleTakeItem fault itemId b (st, c)) = [UpdateDoc itemId (\<not> b)]"
  by (simp add: handleTakeItem_def calls_of_def split: sum.splits)

lemma handleTakeItem_written:
  assumes "userId st = Some u" and "u \<noteq> []" and "map_of c itemId = Some d"
    and "v = (\<not> b)"
  shows "handleTakeItem None itemId b (st, c)
       = (st, map (\<lambda>(k, d). if k = itemId then (k, d\<lparr>taken := v\<rparr>) else (k, d)) c,
          [UpdateDoc itemId v])"
proof -
  from assms(3) have "itemId \<in> fst ` set c"
    by (metis domI dom_map_of_conv_image_fst)
  with assms(1,2) show ?thesis
    unfolding assms(4) by (simp add: handleTakeItem_def updateDoc_def)
qed

section \<open>C1: rows with a blank category\<close>

text \<open>
  C1 says that an accepted row whose category field is empty, or empty once trimmed, is
  emitted with the category \<open>Uncategorized\<close>, so that no emitted record has an empty
  category. \<open>parseCSV\<close> chooses the default by the truthiness of the field before it is
  trimmed: a field of white space only is truthy, is trimmed to the empty string and is
  emitted as such. In a text with CRLF line ends every row before the last whose category
  is empty has the field \<open>\r\<close>; a single blank after the comma does the same. In both
  texts below the accepted row \<open>A\<close> is emitted with the empty category.
\<close>

theorem parseCSV_blank_category_stays_empty:
  "parseCSV (''name,category'' @ [CHR 0x0D, CHR 0x0A] @ ''A,'' @ [CHR 0x0D, CHR 0x0A] @ ''B,Tools'')
     = Inr [\<lparr>name = ''A'', category = [], taken = False\<rparr>,
            \<lparr>name = ''B'', category = ''Tools'', taken = False\<rparr>]
   \<and> parseCSV ''name,category\<newline>A, \<newline>B,Tools''
     = Inr [\<lparr>name = ''A'', category = [], taken = False\<rparr>,
            \<lparr>name = ''B'', category = ''Tools'', taken = False\<rparr>]"
  by code_simp

section \<open>C2: the message of a failed upload\<close>

text \<open>
  C2, as amended. A failure of the file read sets the error slot to the fixed text
  \<open>Failed to read the file.\<close>; a failure of one of the later steps (the parser throws, the
  parser accepts no row, \<open>getDocs\<close> is rejected, the commit is rejected) sets it to
  \<open>Upload Failed: \<close> followed by the message of the underlying error. In every one of these
  cases the uploading indicator is false afterwards.
\<close>

theorem upload_failure_messages:
  "error (state_after (handleFileUpload ReadError env (st, c))) = Some ''Failed to read the file.''
   \<and> uploading (state_after (handleFileUpload ReadError env (st, c))) = False
   \<and> (parseCSV csvText = Inl e \<longrightarrow>
        error (state_after (handleFileUpload (ReadText csvText) env (st, c)))
          = Some (''Upload Failed: '' @ message e)
        \<and> uploading (state_after (handleFileUpload (ReadText csvText) env (st, c))) = False)
   \<and> (parseCSV csvText = Inr [] \<longrightarrow>
        error (state_after (handleFileUpload (ReadText csvText) env (st, c)))
          = Some (''Upload Failed: '' @ ''No valid items found in the CSV.'')
        \<and> uploading (state_after (handleFileUpload (ReadText csvText) env (st, c))) = False)
   \<and> (parseCSV csvText = Inr parsed \<and> parsed \<noteq> [] \<and> getDocsResult env = Inl e \<longrightarrow>
        error (state_after (handleFileUpload (ReadText csvText) env (st, c)))
          = Some (''Upload Failed: '' @ message e)
        \<and> uploading (state_after (handleFileUpload (ReadText csvText) env (st, c))) = False)
   \<and> (parseCSV csvText = Inr parsed \<and> parsed \<noteq> [] \<and> getDocsResult env = Inr fetched
        \<and> commitResult env = Some e \<longrightarrow>
        error (state_after (handleFileUpload (ReadText csvText) env (st, c)))
          = Some (''Upload Failed: '' @ message e)
        \<and> uploading (state_after (handleFileUpload (ReadText csvText) env (st, c))) = False)"
proof (intro conjI impI)
  show "error (state_after (handleFileUpload ReadError env (st, c)))
      = Some ''Failed to read the file.''"
    by (simp add: handleFileUpload_def state_after_def)
  show "uploading (state_after (handleFileUpload ReadError env (st, c))) = False"
    by (simp add: handleFileUpload_def state_after_def)
next
  assume "parseCSV csvText = Inl e"
  then have r: "handleFileUpload (ReadText csvText) env (st, c)
       = (st\<lparr>uploading := False, error := Some (''Upload Failed: '' @ message e),
              uploadSuccess := None\<rparr>, c, [])"
    by (simp add: upload_try_parse_error handleFileUpload_failed)
  show "error (state_after (handleFileUpload (ReadText csvText) env (st, c)))
          = Some (''Upload Failed: '' @ message e)"
    by (simp add: r state_after_def)
  show "uploading (state_after (handleFileUpload (ReadText csvText) env (st, c))) = False"
    by (simp add: r state_after_def)
next
  assume "parseCSV csvText = Inr []"
  then have r: "handleFileUpload (ReadText csvText) env (st, c)
       = (st\<lparr>uploading := False,
              error := Some (''Upload Failed: '' @ message (Error ''No valid items found in the CSV.'')),
              uploadSuccess := None\<rparr>, c, [])"
    by (simp only: upload_try_empty handleFileUpload_failed)
  show "error (state_after (handleFileUpload (ReadText csvText) env (st, c)))
          = Some (''Upload Failed: '' @ ''No valid items found in the CSV.'')"
    by (simp add: r state_after_def)
  show "uploading (state_after (handleFileUpload (ReadText csvText) env (st, c))) = False"
    by (simp add: r state_after_def)
next
  assume "parseCSV csvText = Inr parsed \<and> parsed \<noteq> [] \<and> getDocsResult env = Inl e"
  then have r: "handleFileUpload (ReadText csvText) env (st, c)
       = (st\<lparr>uploading := False, error := Some (''Upload Failed: '' @ message e),
              uploadSuccess := None\<rparr>, c, [GetDocs])"
    by (simp add: upload_try_getDocs_error handleFileUpload_failed)
  show "error (state_after (handleFileUpload (ReadText csvText) env (st, c)))
          = Some (''Upload Failed: '' @ message e)"
    by (simp add: r state_after_def)
  show "uploading (state_after (handleFileUpload (ReadText csvText) env (st, c))) = False"
    by (simp add: r state_after_def)
next
  assume a: "parseCSV csvText = Inr parsed \<and> parsed \<noteq> [] \<and> getDocsResult env = Inr fetched
        \<and> commitResult env = Some e"
  have r: "handleFileUpload (ReadText csvText) env (st, c)
       = (st\<lparr>uploading := False, error := Some (''Upload Failed: '' @ message e),
              uploadSuccess := None\<rparr>, c,
          [GetDocs,
           BatchCommit (map BatchDelete fetched
             @ map (\<lambda>(k, item). BatchSet (autoId env k) item) (enumerate 0 parsed))])"
    using a by (intro handleFileUpload_failed upload_try_commit_error) simp_all
  show "error (state_after (handleFileUpload (ReadText csvText) env (st, c)))
          = Some (''Upload Failed: '' @ message e)"
    by (simp add: r state_after_def)
  show "uploading (state_after (handleFileUpload (ReadText csvText) env (st, c))) = False"
    by (simp add: r state_after_def)
qed

text \<open>The theorem at one concrete failure of each of the four later kinds.\<close>

theorem upload_failure_messages_witness:
  "parseCSV ''item,category'' = Inl columns_error
   \<and> error (state_after (handleFileUpload (ReadText ''item,category'')
        (example_env (Inr [''x1'', ''x2'']) None) (initial_state, example_collection)))
       = Some (''Upload Failed: '' @ message columns_error)
   \<and> parseCSV ''name,category'' = Inr []
   \<and> error (state_after (handleFileUpload (ReadText ''name,category'')
        (example_env (Inr [''x1'', ''x2'']) None) (initial_state, example_collection)))
       = Some ''Upload Failed: No valid items found in the CSV.''
   \<and> parseCSV example_csv = Inr example_parsed
   \<and> error (state_after (handleFileUpload (ReadText example_csv)
        (example_env (Inl (Error ''unavailable'')) None) (initial_state, example_collection)))
       = Some ''Upload Failed: unavailable''
   \<and> error (state_after (handleFileUpload (ReadText example_csv)
        (example_env (Inr [''x1'', ''x2'']) (Some (Error ''permission-denied'')))
        (initial_state, example_collection)))
       = Some ''Upload Failed: permission-denied''
   \<and> uploading (state_after (handleFileUpload (ReadText example_csv)
        (example_env (Inr [''x1'', ''x2'']) (Some (Error ''permission-denied'')))
        (initial_state, example_collection))) = False"
  using
    upload_failure_messages [where csvText = "''item,category''" and e = columns_error
      and env = "example_env (Inr [''x1'', ''x2'']) None" and st = initial_state
      and c = example_collection]
    upload_failure_messages [where csvText = "''name,category''"
      and env = "example_env (Inr [''x1'', ''x2'']) None" and st = initial_state
      and c = example_collection]
    upload_failure_messages [where csvText = example_csv and parsed = example_parsed
      and e = "Error ''unavailable''"
      and env = "example_env (Inl (Error ''unavailable'')) None" and st = initial_state
      and c = example_collection]
    upload_failure_messages [where csvText = example_csv and parsed = example_parsed
      and e = "Error ''permission-denied''" and fetched = "[''x1'', ''x2'']"
      and env = "example_env (Inr [''x1'', ''x2'']) (Some (Error ''permission-denied''))"
      and st = initial_state and c = example_collection]
  by (simp add: parseCSV_no_name_example parseCSV_header_only_example parseCSV_example_csv
        example_parsed_not_Nil example_env_def)

text \<open>
  C2 as it is written fails at the file read: the message set there does not begin with
  \<open>Upload Failed: \<close>, whatever the underlying error says.
\<close>

theorem file_read_failure_message_counterexample:
  "error (state_after (handleFileUpload ReadError (example_env (Inr [''x1'', ''x2'']) None)
       (initial_state, example_collection))) = Some ''Failed to read the file.''
   \<and> \<not> prefix ''Upload Failed: '' ''Failed to read the file.''"
  by (simp add: handleFileUpload_def state_after_def)

section \<open>C3: an upload replaces the collection\<close>

text \<open>
  C3, as amended. In every successful upload of a text that parses to \<open>n\<close> items the
  handler makes one \<open>getDocs\<close> call and one commit, whose batch deletes every fetched
  identifier and then sets the \<open>n\<close> parsed records under the generated identifiers; the
  collection afterwards is the collection at the commit with that batch applied, all of it
  or none. When, in addition, every document present at the commit was among the fetched
  ones and the generated identifiers are pairwise different, the collection afterwards
  holds exactly the \<open>n\<close> parsed records, in order; and uploading the same text again,
  under the same two conditions, ends with a collection of the same size: the items are
  replaced, not added.
\<close>

theorem upload_replaces_collection:
  assumes "parseCSV csvText = Inr parsed" and "parsed \<noteq> []"
    and "getDocsResult env1 = Inr fetched1" and "commitResult env1 = None"
    and "c1 = collection_after (handleFileUpload (ReadText csvText) env1 (st0, c0))"
    and "c2 = collection_after (handleFileUpload (ReadText csvText) env2 (st1, c1))"
  shows "calls_of (handleFileUpload (ReadText csvText) env1 (st0, c0))
      = [GetDocs,
         BatchCommit (map BatchDelete fetched1
           @ map (\<lambda>(k, item). BatchSet (autoId env1 k) item) (enumerate 0 parsed))]
    \<and> c1 = apply_batch (map BatchDelete fetched1
           @ map (\<lambda>(k, item). BatchSet (autoId env1 k) item) (enumerate 0 parsed)) c0
    \<and> (fst ` set c0 \<subseteq> set fetched1 \<and> distinct (map (autoId env1) [0..<length parsed])
        \<longrightarrow> c1 = zip (map (autoId env1) [0..<length parsed]) parsed
          \<and> map snd c1 = parsed \<and> length c1 = length parsed)
    \<and> (fst ` set c0 \<subseteq> set fetched1 \<and> distinct (map (autoId env1) [0..<length parsed])
        \<and> getDocsResult env2 = Inr fetched2 \<and> commitResult env2 = None
        \<and> fst ` set c1 \<subseteq> set fetched2 \<and> distinct (map (autoId env2) [0..<length parsed])
        \<longrightarrow> c2 = zip (map (autoId env2) [0..<length parsed]) parsed
          \<and> map snd c2 = parsed \<and> length c2 = length c1)"
proof -
  have run: "handleFileUpload (ReadText csvText) env (st, c)
      = (st\<lparr>uploading := False, error := None,
             uploadSuccess :=
               Some (''Successfully uploaded '' @ digits (length parsed) @ '' items!'')\<rparr>,
         apply_batch (map BatchDelete fetched
           @ map (\<lambda>(k, item). BatchSet (autoId env k) item) (enumerate 0 parsed)) c,
         [GetDocs,
          BatchCommit (map BatchDelete fetched
           @ map (\<lambda>(k, item). BatchSet (autoId env k) item) (enumerate 0 parsed))])"
    if "getDocsResult env = Inr fetched" and "commitResult env = None" for env st c fetched
    by (rule handleFileUpload_succeeded) (rule upload_try_success [OF assms(1,2) that])
  have calls: "calls_of (handleFileUpload (ReadText csvText) env1 (st0, c0))
      = [GetDocs,
         BatchCommit (map BatchDelete fetched1
           @ map (\<lambda>(k, item). BatchSet (autoId env1 k) item) (enumerate 0 parsed))]"
    unfolding run [OF assms(3,4)] calls_of_def by simp
  have applied: "c1 = apply_batch (map BatchDelete fetched1
           @ map (\<lambda>(k, item). BatchSet (autoId env1 k) item) (enumerate 0 parsed)) c0"
    unfolding assms(5) run [OF assms(3,4)] collection_after_def by simp
  have first: "c1 = zip (map (autoId env1) [0..<length parsed]) parsed"
    if "fst ` set c0 \<subseteq> set fetched1" and "distinct (map (autoId env1) [0..<length parsed])"
    unfolding applied using replace_batch [OF that(2,1)] by simp
  have second: "c2 = zip (map (autoId env2) [0..<length parsed]) parsed"
    if "getDocsResult env2 = Inr fetched2" and "commitResult env2 = None"
      and "fst ` set c1 \<subseteq> set fetched2"
      and "distinct (map (autoId env2) [0..<length parsed])"
    unfolding assms(6) run [OF that(1,2)] collection_after_def
    using replace_batch [OF that(4,3)] by simp
  have one: "fst ` set c0 \<subseteq> set fetched1 \<and> distinct (map (autoId env1) [0..<length parsed])
        \<longrightarrow> c1 = zip (map (autoId env1) [0..<length parsed]) parsed
          \<and> map snd c1 = parsed \<and> length c1 = length parsed"
  proof (intro impI, elim conjE)
    assume "fst ` set c0 \<subseteq> set fetched1"
      and "distinct (map (autoId env1) [0..<length parsed])"
    then have "c1 = zip (map (autoId env1) [0..<length parsed]) parsed" by (rule first)
    then show "c1 = zip (map (autoId env1) [0..<length parsed]) parsed
          \<and> map snd c1 = parsed \<and> length c1 = length parsed" by simp
  qed
  have both: "fst ` set c0 \<subseteq> set fetched1 \<and> distinct (map (autoId env1) [0..<length parsed])
        \<and> getDocsResult env2 = Inr fetched2 \<and> commitResult env2 = None
        \<and> fst ` set c1 \<subseteq> set fetched2 \<and> distinct (map (autoId env2) [0..<length parsed])
        \<longrightarrow> c2 = zip (map (autoId env2) [0..<length parsed]) parsed
          \<and> map snd c2 = parsed \<and> length c2 = length c1"
  proof (intro impI, elim conjE)
    assume "fst ` set c0 \<subseteq> set fetched1"
      and "distinct (map (autoId env1) [0..<length parsed])"
    then have a: "c1 = zip (map (autoId env1) [0..<length parsed]) parsed" by (rule first)
    assume "getDocsResult env2 = Inr fetched2" and "commitResult env2 = None"
      and "fst ` set c1 \<subseteq> set fetched2"
      and "distinct (map (autoId env2) [0..<length parsed])"
    then have b: "c2 = zip (map (autoId env2) [0..<length parsed]) parsed" by (rule second)
    have "length c1 = length parsed" unfolding a by simp
    moreover have "length c2 = length parsed" unfolding b by simp
    moreover have "map snd c2 = parsed" unfolding b by simp
    ultimately show "c2 = zip (map (autoId env2) [0..<length parsed]) parsed
          \<and> map snd c2 = parsed \<and> length c2 = length c1" using b by simp
  qed
  from calls applied one both show ?thesis by (intro conjI)
qed

text \<open>
  The theorem at the example text, uploaded twice over a collection of two older documents,
  each time with all present documents fetched and with fresh identifiers.
\<close>

theorem upload_replaces_collection_witness:
  "parseCSV example_csv = Inr example_parsed \<and> example_parsed \<noteq> []
   \<and> fst ` set example_collection \<subseteq> set [''x1'', ''x2'']
   \<and> distinct (map (autoId (example_env (Inr [''x1'', ''x2'']) None)) [0..<length example_parsed])
   \<and> distinct (map (autoId (later_env (Inr [''doc0'', ''doc1'']) None)) [0..<length example_parsed])
   \<and> calls_of (handleFileUpload (ReadText example_csv)
        (example_env (Inr [''x1'', ''x2'']) None) (initial_state, example_collection))
      = [GetDocs,
         BatchCommit
           [BatchDelete ''x1'', BatchDelete ''x2'',
            BatchSet ''doc0'' \<lparr>name = ''A'', category = ''Cat1'', taken = False\<rparr>,
            BatchSet ''doc1'' \<lparr>name = ''B'', category = ''Uncategorized'', taken = False\<rparr>]]
   \<and> collection_after (handleFileUpload (ReadText example_csv)
        (example_env (Inr [''x1'', ''x2'']) None) (initial_state, example_collection))
      = [(''doc0'', \<lparr>name = ''A'', category = ''Cat1'', taken = False\<rparr>),
         (''doc1'', \<lparr>name = ''B'', category = ''Uncategorized'', taken = False\<rparr>)]
   \<and> length (collection_after (handleFileUpload (ReadText example_csv)
        (later_env (Inr [''doc0'', ''doc1'']) None)
        (initial_state,
         collection_after (handleFileUpload (ReadText example_csv)
           (example_env (Inr [''x1'', ''x2'']) None) (initial_state, example_collection))))) = 2"
proof -
  have g: "getDocsResult (example_env (Inr ks) None) = Inr ks" for ks
    by (simp add: example_env_def)
  have cm: "commitResult (example_env f None) = None" for f
    by (simp add: example_env_def)
  have g2: "getDocsResult (later_env (Inr [''doc0'', ''doc1'']) None) = Inr [''doc0'', ''doc1'']"
    by (simp add: later_env_def)
  have cm2: "commitResult (later_env (Inr [''doc0'', ''doc1'']) None) = None"
    by (simp add: later_env_def)
  have s1: "fst ` set example_collection \<subseteq> set [''x1'', ''x2'']"
    by (simp add: example_collection_def)
  have d1: "distinct (map (autoId (example_env (Inr [''x1'', ''x2'']) None))
      [0..<length example_parsed])"
    by code_simp
  have d2: "distinct (map (autoId (later_env (Inr [''doc0'', ''doc1'']) None))
      [0..<length example_parsed])"
    by code_simp
  have calls: "calls_of (handleFileUpload (ReadText example_csv)
        (example_env (Inr [''x1'', ''x2'']) None) (initial_state, example_collection))
      = [GetDocs,
         BatchCommit
           [BatchDelete ''x1'', BatchDelete ''x2'',
            BatchSet ''doc0'' \<lparr>name = ''A'', category = ''Cat1'', taken = False\<rparr>,
            BatchSet ''doc1'' \<lparr>name = ''B'', category = ''Uncategorized'', taken = False\<rparr>]]"
    by code_simp
  have c1: "collection_after (handleFileUpload (ReadText example_csv)
        (example_env (Inr [''x1'', ''x2'']) None) (initial_state, example_collection))
      = [(''doc0'', \<lparr>name = ''A'', category = ''Cat1'', taken = False\<rparr>),
         (''doc1'', \<lparr>name = ''B'', category = ''Uncategorized'', taken = False\<rparr>)]"
    by code_simp
  have s2: "fst ` set (collection_after (handleFileUpload (ReadText example_csv)
        (example_env (Inr [''x1'', ''x2'']) None) (initial_state, example_collection)))
      \<subseteq> set [''doc0'', ''doc1'']"
    unfolding c1 by simp
  note t = upload_replaces_collection [OF parseCSV_example_csv example_parsed_not_Nil
      g [of "[''x1'', ''x2'']"] cm refl refl, where ?c0.0 = example_collection
      and ?st0.0 = initial_state and ?st1.0 = initial_state
      and ?env2.0 = "later_env (Inr [''doc0'', ''doc1'']) None"
      and ?fetched2.0 = "[''doc0'', ''doc1'']"]
  from t s1 d1 g2 cm2 s2 d2
  have L: "length (collection_after (handleFileUpload (ReadText example_csv)
        (later_env (Inr [''doc0'', ''doc1'']) None)
        (initial_state,
         collection_after (handleFileUpload (ReadText example_csv)
           (example_env (Inr [''x1'', ''x2'']) None) (initial_state, example_collection)))))
     = length (collection_after (handleFileUpload (ReadText example_csv)
           (example_env (Inr [''x1'', ''x2'']) None) (initial_state, example_collection)))"
    by blast
  have two: "length (collection_after (handleFileUpload (ReadText example_csv)
        (later_env (Inr [''doc0'', ''doc1'']) None)
        (initial_state,
         collection_after (handleFileUpload (ReadText example_csv)
           (example_env (Inr [''x1'', ''x2'']) None) (initial_state, example_collection))))) = 2"
    by (subst L) (simp add: c1)
  from parseCSV_example_csv example_parsed_not_Nil s1 d1 d2 calls c1 two
  show ?thesis by blast
qed

text \<open>
  C3 as it is written, for every successful upload, fails. The fetch happens before the
  batch and outside it, and the collection is shared: when the document \<open>x2\<close> is present
  at the commit but was not among the fetched ones, the upload of the example text (two
  items) succeeds and leaves three documents, \<open>x2\<close> among them, and the same text
  uploaded next, now with every document fetched, leaves two. And were the two generated
  identifiers the same, the successful upload would leave one document for the two parsed
  records.
\<close>

theorem upload_replaces_collection_counterexample:
  "parseCSV example_csv = Inr example_parsed
   \<and> length example_parsed = 2
   \<and> uploadSuccess (state_after (handleFileUpload (ReadText example_csv)
        (example_env (Inr [''x1'']) None) (initial_state, example_collection)))
      = Some ''Successfully uploaded 2 items!''
   \<and> collection_after (handleFileUpload (ReadText example_csv)
        (example_env (Inr [''x1'']) None) (initial_state, example_collection))
      = [(''x2'', \<lparr>name = ''Tape'', category = ''Supplies'', taken = False\<rparr>),
         (''doc0'', \<lparr>name = ''A'', category = ''Cat1'', taken = False\<rparr>),
         (''doc1'', \<lparr>name = ''B'', category = ''Uncategorized'', taken = False\<rparr>)]
   \<and> length (collection_after (handleFileUpload (ReadText example_csv)
        (example_env (Inr [''x1'']) None) (initial_state, example_collection))) = 3
   \<and> length (collection_after (handleFileUpload (ReadText example_csv)
        (later_env (Inr [''x2'', ''doc0'', ''doc1'']) None)
        (initial_state,
         collection_after (handleFileUpload (ReadText example_csv)
           (example_env (Inr [''x1'']) None) (initial_state, example_collection))))) = 2
   \<and> uploadSuccess (state_after (handleFileUpload (ReadText example_csv)
        (colliding_env (Inr [''x1'', ''x2'']) None) (initial_state, example_collection)))
      = Some ''Successfully uploaded 2 items!''
   \<and> length (collection_after (handleFileUpload (ReadText example_csv)
        (colliding_env (Inr [''x1'', ''x2'']) None) (initial_state, example_collection))) = 1"
  by code_simp

section \<open>C4: the parser on the example and on a header without the columns\<close>

text \<open>
  C4. The text with header line \<open>name,category\<close> and data lines \<open>A,Cat1\<close>, \<open>B,\<close> and
  \<open>,Cat2\<close> parses to the two records for \<open>A\<close> (category \<open>Cat1\<close>) and \<open>B\<close> (category
  \<open>Uncategorized\<close>), in that order, both not taken; the row with the blank name is dropped.
  And whenever the header row has no column \<open>name\<close> or no column \<open>category\<close>, cells being
  trimmed and compared without regard to letter case, \<open>parseCSV\<close> throws the error whose
  message asks for the two columns.
\<close>

theorem parseCSV_example_and_missing_columns:
  "parseCSV ''name,category\<newline>A,Cat1\<newline>B,\<newline>,Cat2''
     = Inr [\<lparr>name = ''A'', category = ''Cat1'', taken = False\<rparr>,
            \<lparr>name = ''B'', category = ''Uncategorized'', taken = False\<rparr>]
   \<and> (\<not> has_column text ''name'' \<or> \<not> has_column text ''category''
        \<longrightarrow> parseCSV text = Inl columns_error)"
proof
  show "parseCSV ''name,category\<newline>A,Cat1\<newline>B,\<newline>,Cat2''
     = Inr [\<lparr>name = ''A'', category = ''Cat1'', taken = False\<rparr>,
            \<lparr>name = ''B'', category = ''Uncategorized'', taken = False\<rparr>]"
    by code_simp
  show "\<not> has_column text ''name'' \<or> \<not> has_column text ''category''
        \<longrightarrow> parseCSV text = Inl columns_error"
    by (simp add: parseCSV_columns_error_iff)
qed

text \<open>The theorem at a header without \<open>name\<close> and at a header without \<open>category\<close>.\<close>

theorem parseCSV_missing_columns_witness:
  "\<not> has_column ''item,category'' ''name''
   \<and> parseCSV ''item,category'' = Inl columns_error
   \<and> \<not> has_column ''Name,Kind'' ''category''
   \<and> parseCSV ''Name,Kind'' = Inl columns_error"
proof -
  have a: "\<not> has_column ''item,category'' ''name''" by code_simp
  have b: "\<not> has_column ''Name,Kind'' ''category''" by code_simp
  from a b parseCSV_example_and_missing_columns [of "''item,category''"]
    parseCSV_example_and_missing_columns [of "''Name,Kind''"]
  show ?thesis by blast
qed

section \<open>C5: the dashboard counts\<close>

text \<open>
  C5. The dashboard counts come from the category-filtered list alone: \<open>total\<close> is its
  length, \<open>taken\<close> the number of its items that are taken, \<open>notTaken\<close> the difference,
  which never truncates since the two counts add up to the total. Setting the search text
  to anything leaves the three counts as they are. For the three items of the example,
  with category \<open>A\<close> selected, the counts are 2, 1 and 1 under every search text.
\<close>

theorem dashboardStats_ignore_search:
  "totalCount (dashboardStats st) = length (stage1_spec (selectedCategory st) (items st))
   \<and> takenCount (dashboardStats st)
       = length (filter (\<lambda>i. taken i) (stage1_spec (selectedCategory st) (items st)))
   \<and> notTaken (dashboardStats st) = totalCount (dashboardStats st) - takenCount (dashboardStats st)
   \<and> takenCount (dashboardStats st) + notTaken (dashboardStats st) = totalCount (dashboardStats st)
   \<and> dashboardStats (st\<lparr>searchQuery := q\<rparr>) = dashboardStats st
   \<and> dashboardStats
        (st\<lparr>items := [\<lparr>name = n1, category = ''A'', taken = True, item_id = i1\<rparr>,
                      \<lparr>name = n2, category = ''A'', taken = False, item_id = i2\<rparr>,
                      \<lparr>name = n3, category = ''B'', taken = False, item_id = i3\<rparr>],
            selectedCategory := ''A'', searchQuery := q\<rparr>)
       = \<lparr>totalCount = 2, takenCount = 1, notTaken = 1\<rparr>"
proof -
  have le: "length (filter (\<lambda>i. taken i) (categoryFilteredItems st))
      \<le> length (categoryFilteredItems st)"
    by (rule length_filter_le)
  have "dashboardStats (st\<lparr>searchQuery := q\<rparr>) = dashboardStats st"
    by (simp add: dashboardStats_def categoryFilteredItems_def)
  moreover have "dashboardStats
        (st\<lparr>items := [\<lparr>name = n1, category = ''A'', taken = True, item_id = i1\<rparr>,
                      \<lparr>name = n2, category = ''A'', taken = False, item_id = i2\<rparr>,
                      \<lparr>name = n3, category = ''B'', taken = False, item_id = i3\<rparr>],
            selectedCategory := ''A'', searchQuery := q\<rparr>)
       = \<lparr>totalCount = 2, takenCount = 1, notTaken = 1\<rparr>"
    by (simp add: dashboardStats_def categoryFilteredItems_def)
  ultimately show ?thesis
    using le by (simp add: dashboardStats_fields categoryFilteredItems_stage1 [symmetric])
qed

section \<open>C6: the displayed list\<close>

text \<open>
  C6. For every state the displayed list is Stage 2 of the specification applied, with the
  search text, to Stage 1 applied, with the selected category, to the item list.
\<close>

theorem displayedItems_two_stages:
  "displayedItems st = stage2_spec (searchQuery st) (stage1_spec (selectedCategory st) (items st))"
  by (simp add: displayedItems_def stage2_spec_def categoryFilteredItems_stage1
        js_includes_sublist Let_def)

section \<open>C7: a text without accepted rows\<close>

text \<open>
  C7. When the text parses to no accepted row, the upload ends with the error
  \<open>Upload Failed: No valid items found in the CSV.\<close>, with the uploading indicator false,
  with no call to the store at all (neither the fetch nor a write) and with the collection
  as it was. This is the case in particular for a text that consists of a header row with
  the columns \<open>name\<close> and \<open>category\<close> and has no further line.
\<close>

theorem upload_rejects_empty_parse:
  "(parseCSV csvText = Inr [] \<longrightarrow>
      handleFileUpload (ReadText csvText) env (st, c)
        = (st\<lparr>uploading := False,
               error := Some ''Upload Failed: No valid items found in the CSV.'',
               uploadSuccess := None\<rparr>, c, []))
   \<and> (has_column hdr ''name'' \<and> has_column hdr ''category''
        \<and> CHR ''\<newline>'' \<notin> set (trim hdr) \<longrightarrow>
      handleFileUpload (ReadText hdr) env (st, c)
        = (st\<lparr>uploading := False,
               error := Some ''Upload Failed: No valid items found in the CSV.'',
               uploadSuccess := None\<rparr>, c, []))"
proof -
  have rej: "handleFileUpload (ReadText t) env (st, c)
        = (st\<lparr>uploading := False,
               error := Some ''Upload Failed: No valid items found in the CSV.'',
               uploadSuccess := None\<rparr>, c, [])" if "parseCSV t = Inr []" for t
    using handleFileUpload_failed [OF upload_try_empty [OF that], where env = env and c = c and st = st] by simp
  show ?thesis
    using rej [of csvText] rej [of hdr] parseCSV_header_only [of hdr] by blast
qed

text \<open>The theorem at two header-only texts.\<close>

theorem upload_rejects_empty_parse_witness:
  "parseCSV ''name,category'' = Inr []
   \<and> has_column ''Name , Category'' ''name'' \<and> has_column ''Name , Category'' ''category''
   \<and> CHR ''\<newline>'' \<notin> set (trim ''Name , Category'')
   \<and> handleFileUpload (ReadText ''name,category'') (example_env (Inr [''x1'', ''x2'']) None)
        (initial_state, example_collection)
      = (initial_state\<lparr>uploading := False,
            error := Some ''Upload Failed: No valid items found in the CSV.'',
            uploadSuccess := None\<rparr>, example_collection, [])
   \<and> handleFileUpload (ReadText ''Name , Category'') (example_env (Inr [''x1'', ''x2'']) None)
        (initial_state, example_collection)
      = (initial_state\<lparr>uploading := False,
            error := Some ''Upload Failed: No valid items found in the CSV.'',
            uploadSuccess := None\<rparr>, example_collection, [])"
proof -
  have a: "has_column ''Name , Category'' ''name''" by code_simp
  have b: "has_column ''Name , Category'' ''category''" by code_simp
  have n: "CHR ''\<newline>'' \<notin> set (trim ''Name , Category'')" by code_simp
  from a b n parseCSV_header_only_example
    upload_rejects_empty_parse [where csvText = "''name,category''" and hdr = "''Name , Category''"
      and env = "example_env (Inr [''x1'', ''x2'']) None" and st = initial_state
      and c = example_collection]
  show ?thesis by simp
qed

section \<open>C8: an error of the subscription\<close>

text \<open>
  C8. In every state the error callback of the subscription sets a user-visible error and
  clears the loading flag, and leaves the item list and the category list as they were.
\<close>

theorem onSnapshot_error_keeps_stale_data:
  "error (onSnapshot_error err st) = Some ''Failed to load items. Check console for details.''
   \<and> isLoading (onSnapshot_error err st) = False
   \<and> items (onSnapshot_error err st) = items st
   \<and> categories (onSnapshot_error err st) = categories st"
  by (simp add: onSnapshot_error_def)

section \<open>C9: taking and returning an item\<close>

text \<open>
  C9. With a session identity, the interaction issues one update of the item that writes
  the negation of the value passed. Applied twice to an existing document, the second time
  with the value the first one wrote, it leaves the document with the value passed at
  first, which gives back the original collection when that value was the stored one. Both
  writes change the \<open>taken\<close> field of that document only: its other fields, the other
  documents and the identifiers stay. Without a session identity no call is made, the
  collection stays and the sign-in error is set.
\<close>

theorem handleTakeItem_twice_restores:
  assumes "userId st = Some u" and "u \<noteq> []" and "map_of c itemId = Some d"
    and "c1 = collection_after (handleTakeItem None itemId b (st, c))"
    and "c2 = collection_after (handleTakeItem None itemId (\<not> b) (st, c1))"
  shows "calls_of (handleTakeItem fault itemId b (st, c)) = [UpdateDoc itemId (\<not> b)]
    \<and> calls_of (handleTakeItem fault itemId (\<not> b) (st, c1)) = [UpdateDoc itemId b]
    \<and> map_of c1 = (map_of c)(itemId \<mapsto> d\<lparr>taken := \<not> b\<rparr>)
    \<and> map_of c2 = (map_of c)(itemId \<mapsto> d\<lparr>taken := b\<rparr>)
    \<and> map fst c1 = map fst c \<and> map fst c2 = map fst c
    \<and> (taken d = b \<longrightarrow> map_of c2 = map_of c)
    \<and> (userId st' = None \<longrightarrow>
         handleTakeItem fault itemId b (st', c)
           = (st'\<lparr>error := Some ''You must be signed in to take an item.''\<rparr>, c, []))"
proof -
  have c1: "c1 = map (\<lambda>(k, d). if k = itemId then (k, d\<lparr>taken := \<not> b\<rparr>) else (k, d)) c"
    using handleTakeItem_written [OF assms(1-3) refl, of b] assms(4)
    by (simp add: collection_after_def)
  have m1: "map_of c1 = (map_of c)(itemId \<mapsto> d\<lparr>taken := \<not> b\<rparr>)"
    unfolding c1 map_of_updateDoc using assms(3) by (auto simp: fun_eq_iff)
  then have look: "map_of c1 itemId = Some (d\<lparr>taken := \<not> b\<rparr>)" by simp
  have "handleTakeItem None itemId (\<not> b) (st, c1)
       = (st, map (\<lambda>(k, d). if k = itemId then (k, d\<lparr>taken := b\<rparr>) else (k, d)) c1,
          [UpdateDoc itemId b])"
    by (rule handleTakeItem_written [OF assms(1,2) look]) simp
  then have c2: "c2 = map (\<lambda>(k, d). if k = itemId then (k, d\<lparr>taken := b\<rparr>) else (k, d)) c1"
    by (simp add: assms(5) collection_after_def)
  have m2: "map_of c2 = (map_of c)(itemId \<mapsto> d\<lparr>taken := b\<rparr>)"
    unfolding c2 map_of_updateDoc using look m1 by (auto simp: fun_eq_iff)
  have k1: "map fst c1 = map fst c" unfolding c1 by (rule keys_updateDoc)
  have k2: "map fst c2 = map fst c" unfolding c2 using k1 by (simp only: keys_updateDoc)
  have same: "map_of c2 = map_of c" if "taken d = b"
  proof -
    from that have "d\<lparr>taken := b\<rparr> = d" by simp
    with m2 assms(3) show ?thesis by (auto simp: fun_eq_iff)
  qed
  show ?thesis
    using handleTakeItem_calls [OF assms(1,2)] m1 m2 k1 k2 same
      handleTakeItem_signed_out [of st' fault itemId b c]
    by simp
qed

text \<open>The theorem at a signed-in state and a taken item, and at the initial state.\<close>

theorem handleTakeItem_twice_restores_witness:
  "userId signed_in_state = Some ''u1'' \<and> ''u1'' \<noteq> []
   \<and> map_of example_collection ''x1'' = Some \<lparr>name = ''Hammer'', category = ''Tools'', taken = True\<rparr>
   \<and> calls_of (handleTakeItem None ''x1'' True (signed_in_state, example_collection))
       = [UpdateDoc ''x1'' False]
   \<and> map_of (collection_after (handleTakeItem None ''x1'' False (signed_in_state,
         collection_after (handleTakeItem None ''x1'' True (signed_in_state, example_collection)))))
       = map_of example_collection
   \<and> userId initial_state = None
   \<and> handleTakeItem None ''x1'' True (initial_state, example_collection)
       = (initial_state\<lparr>error := Some ''You must be signed in to take an item.''\<rparr>,
          example_collection, [])"
proof -
  have u: "userId signed_in_state = Some ''u1''"
    by (simp add: signed_in_state_def)
  have n: "''u1'' \<noteq> []" by simp
  have m: "map_of example_collection ''x1''
      = Some \<lparr>name = ''Hammer'', category = ''Tools'', taken = True\<rparr>"
    by (simp add: example_collection_def)
  have i: "userId initial_state = None"
    by (simp add: initial_state_def)
  from handleTakeItem_twice_restores [OF u n m refl refl, where b = True and fault = None
      and st' = initial_state] u n m i
  show ?thesis by (simp add: map_upd_triv)
qed

section \<open>C10: a snapshot clears the error slot\<close>

text \<open>
  C10. Every delivered snapshot rebuilds the item list and the category list from its
  documents and then sets the loading flag to false and the error slot to \<open>null\<close>,
  whatever the slot held. So the message that a failed sign-in, a failed upload or a failed
  item update has set is gone after the next snapshot.
\<close>

theorem onSnapshot_next_clears_error:
  "error (onSnapshot_next qs st) = None
   \<and> isLoading (onSnapshot_next qs st) = False
   \<and> items (onSnapshot_next qs st) = map item_of_doc qs
   \<and> set (categories (onSnapshot_next qs st))
       = {''All''} \<union> {category d |i d. (i, d) \<in> set qs \<and> category d \<noteq> []}
   \<and> error (onAuthStateChanged (NoUser (Some e)) st)
       = Some ''Failed to authenticate. Please refresh.''
   \<and> error (onSnapshot_next qs (onAuthStateChanged (NoUser (Some e)) st)) = None
   \<and> error (state_after (handleFileUpload ReadError env (st, c)))
       = Some ''Failed to read the file.''
   \<and> error (onSnapshot_next qs (state_after (handleFileUpload ReadError env (st, c)))) = None
   \<and> error (state_after (handleTakeItem (Some e) i b (st, c))) \<noteq> None
   \<and> error (onSnapshot_next qs (state_after (handleTakeItem (Some e) i b (st, c)))) = None"
proof -
  have "error (state_after (handleTakeItem (Some e) i b (st, c))) \<noteq> None"
    by (simp add: handleTakeItem_def state_after_def updateDoc_def)
  moreover have "error (state_after (handleFileUpload ReadError env (st, c)))
       = Some ''Failed to read the file.''"
    by (simp add: handleFileUpload_def state_after_def)
  moreover have "error (onAuthStateChanged (NoUser (Some e)) st)
       = Some ''Failed to authenticate. Please refresh.''"
    by (simp add: onAuthStateChanged_def)
  moreover have "set (categories (onSnapshot_next qs st))
       = {''All''} \<union> {category d |i d. (i, d) \<in> set qs \<and> category d \<noteq> []}"
    by (simp add: onSnapshot_next_fields(2) snapshot_forEach_categories)
  ultimately show ?thesis
    by (simp add: onSnapshot_next_fields)
qed

end
